theory Spec2Isabelle
  imports Complex_Main "HOL-Library.Word"
begin

section \<open>JavaScript values\<close>

text \<open>
  A JavaScript string is a sequence of UTF-16 code units; a code unit is modelled as a
  natural number. \<open>js\<close> embeds an ASCII literal of the source.
\<close>

type_synonym jsstr = "nat list"

type_synonym path = jsstr

type_synonym buffer = "8 word list"

definition js :: "string \<Rightarrow> jsstr" where
  "js s = map of_char s"

text \<open>
  The code units that \<open>String.prototype.trim\<close> strips: the WhiteSpace and LineTerminator
  productions of ECMAScript.
\<close>

definition isWhiteSpace :: "nat \<Rightarrow> bool" where
  "isWhiteSpace u \<longleftrightarrow>
     u = 9 \<or> u = 10 \<or> u = 11 \<or> u = 12 \<or> u = 13 \<or> u = 32 \<or> u = 160 \<or> u = 5760 \<or>
     (8192 \<le> u \<and> u \<le> 8202) \<or> u = 8232 \<or> u = 8233 \<or> u = 8239 \<or> u = 8287 \<or>
     u = 12288 \<or> u = 65279"

definition trim :: "jsstr \<Rightarrow> jsstr" where
  "trim s = rev (dropWhile isWhiteSpace (rev (dropWhile isWhiteSpace s)))"

text \<open>Decimal digits of a natural number, as \<open>String(n)\<close> prints an integer.\<close>

fun digits :: "nat \<Rightarrow> jsstr" where
  "digits n = (if n < 10 then [48 + n] else digits (n div 10) @ [48 + n mod 10])"

declare digits.simps [simp del]

text \<open>
  The integers every one of which is a double that \<open>String\<close> prints as its plain decimal
  digits: the safe integers, below 2^53 in magnitude.
\<close>

typedef safe_int = "{i :: int. - (2 ^ 53) < i \<and> i < 2 ^ 53}"
  by (rule exI [of _ 0]) simp

setup_lifting type_definition_safe_int

instantiation safe_int :: zero
begin

lift_definition zero_safe_int :: safe_int is 0
  by simp

instance ..

end

text \<open>
  A spreadsheet cell as \<open>xlsx.utils.sheet_to_json(sheet, {header: 1})\<close> delivers it: a hole
  or missing cell reads as \<open>undefined\<close>. \<open>Num\<close> is a number that is a safe integer; \<open>Float\<close> is
  any other number (a fraction, or a magnitude of 2^53 and beyond, where \<open>String\<close> prints the
  shortest digits that read back as the same double, or an exponent), carried by the text
  \<open>String\<close> prints for it.
\<close>

datatype cell = Undefined | Null | Str jsstr | Num safe_int | Float jsstr | Bool bool

fun String :: "cell \<Rightarrow> jsstr" where
  "String Undefined = js ''undefined''"
| "String Null = js ''null''"
| "String (Str s) = s"
| "String (Num i) =
     (if Rep_safe_int i < 0 then js ''-'' @ digits (nat (- Rep_safe_int i))
      else digits (nat (Rep_safe_int i)))"
| "String (Float t) = t"
| "String (Bool b) = (if b then js ''true'' else js ''false'')"

type_synonym row = "cell list"

text \<open>\<open>row[colIndex]\<close>: reading past the end of a JavaScript array gives \<open>undefined\<close>.\<close>

definition cell_at :: "row \<Rightarrow> nat \<Rightarrow> cell" where
  "cell_at r k = (if k < length r then r ! k else Undefined)"

section \<open>Record extraction (the loop over \<open>rawData\<close>, identical in both source files)\<close>

datatype reason = EmptyValue | DuplicateSerial

record ledger_entry =
  row_no :: nat
  error :: reason
  dup_value :: "jsstr option"

record extraction =
  validRecords :: "jsstr list"
  errors :: "ledger_entry list"
  seen :: "jsstr set"

text \<open>The test \<open>serial === undefined || serial === null || serial === ''\<close>.\<close>

definition isEmptyValue :: "cell \<Rightarrow> bool" where
  "isEmptyValue serial \<longleftrightarrow> serial = Undefined \<or> serial = Null \<or> serial = Str []"

text \<open>
  The body of \<open>for (let i = startIndex; i < rawData.length; i++)\<close>; the list argument is
  \<open>rawData\<close> from index \<open>i\<close> on.
\<close>

fun extract_loop :: "nat \<Rightarrow> nat \<Rightarrow> row list \<Rightarrow> extraction \<Rightarrow> extraction" where
  "extract_loop colIndex i [] st = st"
| "extract_loop colIndex i (r # rest) st =
     (let serial = cell_at r colIndex in
      if isEmptyValue serial then
        extract_loop colIndex (i + 1) rest
          (st\<lparr>errors := errors st @ [\<lparr>row_no = i + 1, error = EmptyValue, dup_value = None\<rparr>]\<rparr>)
      else
        let serialStr = trim (String serial) in
        if serialStr \<in> seen st then
          extract_loop colIndex (i + 1) rest
            (st\<lparr>errors := errors st @
               [\<lparr>row_no = i + 1, error = DuplicateSerial, dup_value = Some serialStr\<rparr>]\<rparr>)
        else
          extract_loop colIndex (i + 1) rest
            (st\<lparr>seen := insert serialStr (seen st),
                validRecords := validRecords st @ [serialStr]\<rparr>))"

definition startIndex :: nat where
  "startIndex = 0"

definition extractRecords :: "nat \<Rightarrow> row list \<Rightarrow> extraction" where
  "extractRecords colIndex rawData =
     extract_loop colIndex startIndex (drop startIndex rawData)
       \<lparr>validRecords = [], errors = [], seen = {}\<rparr>"

section \<open>Report text\<close>

definition reason_text :: "reason \<Rightarrow> jsstr" where
  "reason_text e = (case e of EmptyValue \<Rightarrow> js ''Empty value'' | DuplicateSerial \<Rightarrow> js ''Duplicate serial'')"

text \<open>One line of the error details; \<open>err.value || ''\<close> prints nothing for a missing value.\<close>

definition report_line :: "ledger_entry \<Rightarrow> jsstr" where
  "report_line err =
     js ''Row '' @ digits (row_no err) @ js '': '' @ reason_text (error err) @
     js '' (Value: '' @ [34] @ (case dup_value err of None \<Rightarrow> [] | Some v \<Rightarrow> v) @ [34] @
     js '')'' @ [10]"

definition reportContent :: "nat \<Rightarrow> extraction \<Rightarrow> jsstr" where
  "reportContent totalRows ex =
     js ''Generation Report'' @ [10] @ js ''================='' @ [10] @
     js ''Total Rows Processed: '' @ digits totalRows @ [10] @
     js ''Successful: '' @ digits (length (validRecords ex)) @ [10] @
     js ''Skipped/Errors: '' @ digits (length (errors ex)) @ [10, 10] @
     (if errors ex \<noteq> [] then js ''Error Details:'' @ [10] @ concat (map report_line (errors ex))
      else [])"

section \<open>Style configuration and the external libraries\<close>

text \<open>
  The fields of \<open>req.body\<close> after defaulting. \<open>qrWidth\<close>, \<open>marginInt\<close>, \<open>textHeight\<close>,
  \<open>fontSize\<close> and \<open>lSize\<close> are the pre-calculated numbers of the handler (\<open>parseInt\<close> and
  \<open>Math.floor\<close> of floating-point products); they enter the model as given values.
\<close>

record config =
  qrWidth :: nat
  marginInt :: nat
  errorCorrectionLevel :: jsstr
  colIndex :: nat
  format :: jsstr
  colorDark :: jsstr
  colorLight :: jsstr
  moduleStyle :: jsstr
  eyeStyle :: jsstr
  textHeight :: nat
  fontSize :: nat
  lSize :: nat
  showText :: cell

text \<open>\<open>showText === 'true' || showText === true\<close>\<close>

definition shouldShowText :: "config \<Rightarrow> bool" where
  "shouldShowText cfg \<longleftrightarrow> showText cfg = Str (js ''true'') \<or> showText cfg = Bool True"

text \<open>The options object handed to \<open>QRCode.toBuffer\<close> and \<open>QRCode.toDataURL\<close>.\<close>

record qr_opts =
  o_width :: nat
  o_margin :: nat
  o_errorCorrectionLevel :: jsstr
  o_type :: "jsstr option"
  o_dark :: jsstr
  o_light :: jsstr
  o_quality :: "rat option"

text \<open>\<open>qrData.modules\<close>: the module bits in row-major order and the side of the symbol.\<close>

record qrdata =
  modules_data :: "bool list"
  modules_size :: nat

text \<open>The vector shapes the handler writes into its SVG text, by their attributes.\<close>

datatype shape =
  Rect (rect_x: rat) (rect_y: rat) (rect_w: rat) (rect_h: rat) (rect_rx: "rat option") (rect_fill: jsstr)
| Circle (circle_cx: rat) (circle_cy: rat) (circle_r: rat) (circle_fill: jsstr)

record svg_doc =
  viewBox_size :: nat
  svg_width :: nat
  background :: jsstr
  shapes :: "shape list"

record text_svg =
  t_width :: nat
  t_height :: nat
  t_background :: jsstr
  t_font_size :: nat
  t_fill :: jsstr
  t_content :: jsstr

datatype gravity = Center | South

datatype overlay = Overlay_buffer buffer gravity | Overlay_text text_svg gravity

text \<open>The calls chained on a \<open>sharp\<close> instance before \<open>toBuffer\<close>, in call order.\<close>

datatype sharp_op =
  Composite "overlay list" | Extend nat jsstr | ToFormat jsstr nat | Png | Jpeg nat

text \<open>
  The libraries the handler calls (\<open>xlsx\<close>, \<open>qrcode\<close>, \<open>sharp\<close>, \<open>archiver\<close>) are parameters of
  the model; \<open>None\<close> is a call that throws (or a promise that rejects). \<open>QRCode_toDataURL\<close>
  includes the base64 decoding of the data URL into a buffer. \<open>archiver_entry_name\<close> is the
  name \<open>archiver\<close> gives a member appended under a given name: the library sanitises entry
  names before it writes them.
\<close>

record libs =
  xlsx_readFile :: "path \<Rightarrow> row list option"
  QRCode_toBuffer :: "jsstr \<Rightarrow> qr_opts \<Rightarrow> buffer option"
  QRCode_toDataURL :: "jsstr \<Rightarrow> qr_opts \<Rightarrow> buffer option"
  QRCode_create :: "jsstr \<Rightarrow> jsstr \<Rightarrow> qrdata option"
  sharp_toBuffer :: "svg_doc \<Rightarrow> sharp_op list \<Rightarrow> buffer option"
  sharp_logoBg :: "nat \<Rightarrow> jsstr \<Rightarrow> buffer option"
  sharp_logoResized :: "path \<Rightarrow> nat \<Rightarrow> buffer option"
  archiver_entry_name :: "jsstr \<Rightarrow> jsstr"

section \<open>The renderer of index.js (\<open>processRecord\<close>)\<close>

text \<open>\<open>isFinder\<close>; \<open>size - 7\<close> is computed in the integers, as JavaScript does.\<close>

definition isFinder :: "nat \<Rightarrow> nat \<Rightarrow> nat \<Rightarrow> bool" where
  "isFinder sz r c \<longleftrightarrow>
     (r < 7 \<and> c < 7) \<or> (r < 7 \<and> int c \<ge> int sz - 7) \<or> (int r \<ge> int sz - 7 \<and> c < 7)"

text \<open>\<open>modules[k]\<close> as a condition: an index past the end reads \<open>undefined\<close>, which is falsy.\<close>

definition module_dark :: "qrdata \<Rightarrow> nat \<Rightarrow> bool" where
  "module_dark qr k \<longleftrightarrow> k < length (modules_data qr) \<and> modules_data qr ! k"

text \<open>The list \<open>eyes\<close>, as pairs \<open>(r, c)\<close>.\<close>

definition eyes :: "nat \<Rightarrow> (int \<times> int) list" where
  "eyes sz = [(0, 0), (0, int sz - 7), (int sz - 7, 0)]"

text \<open>The three shapes pushed for one eye.\<close>

definition eye_shapes :: "config \<Rightarrow> int \<times> int \<Rightarrow> shape list" where
  "eye_shapes cfg eye =
     (case eye of (r, c) \<Rightarrow>
        if eyeStyle cfg = js ''rounded'' then
          [Rect (of_int c) (of_int r) 7 7 (Some (3 / 2)) (colorDark cfg),
           Rect (of_int (c + 1)) (of_int (r + 1)) 5 5 (Some 1) (colorLight cfg),
           Rect (of_int (c + 2)) (of_int (r + 2)) 3 3 (Some (1 / 2)) (colorDark cfg)]
        else
          [Rect (of_int c) (of_int r) 7 7 None (colorDark cfg),
           Rect (of_int (c + 1)) (of_int (r + 1)) 5 5 None (colorLight cfg),
           Rect (of_int (c + 2)) (of_int (r + 2)) 3 3 None (colorDark cfg)])"

text \<open>The shape pushed for a dark module at row \<open>r\<close>, column \<open>c\<close>, in the given style.\<close>

definition module_shape :: "jsstr \<Rightarrow> jsstr \<Rightarrow> nat \<Rightarrow> nat \<Rightarrow> shape" where
  "module_shape style dark r c =
     (if style = js ''dots'' then Circle (of_nat c + 1 / 2) (of_nat r + 1 / 2) (2 / 5) dark
      else if style = js ''rounded'' then
        Rect (of_nat c + 1 / 10) (of_nat r + 1 / 10) (4 / 5) (4 / 5) (Some (1 / 5)) dark
      else Rect (of_nat c) (of_nat r) 1 1 None dark)"

text \<open>The body of the inner loop over \<open>c\<close>: what one cell adds to \<open>shapes\<close>.\<close>

definition cell_shapes :: "config \<Rightarrow> qrdata \<Rightarrow> nat \<Rightarrow> nat \<Rightarrow> shape list" where
  "cell_shapes cfg qr r c =
     (let sz = modules_size qr; rowOffset = r * sz in
      if isFinder sz r c then []
      else if module_dark qr (rowOffset + c) then [module_shape (moduleStyle cfg) (colorDark cfg) r c]
      else [])"

definition data_shapes :: "config \<Rightarrow> qrdata \<Rightarrow> shape list" where
  "data_shapes cfg qr =
     concat (map (\<lambda>r. concat (map (\<lambda>c. cell_shapes cfg qr r c) [0..<modules_size qr]))
       [0..<modules_size qr])"

definition styled_shapes :: "config \<Rightarrow> qrdata \<Rightarrow> shape list" where
  "styled_shapes cfg qr =
     concat (map (eye_shapes cfg) (eyes (modules_size qr))) @ data_shapes cfg qr"

text \<open>\<open>.replace(/x/g, rep)\<close> for a pattern of one character.\<close>

definition replaceAll :: "nat \<Rightarrow> jsstr \<Rightarrow> jsstr \<Rightarrow> jsstr" where
  "replaceAll ch rep s = concat (map (\<lambda>u. if u = ch then rep else [u]) s)"

definition escapedSerial :: "jsstr \<Rightarrow> jsstr" where
  "escapedSerial serial =
     replaceAll 39 (js ''&apos;'')
       (replaceAll 34 (js ''&quot;'')
         (replaceAll 62 (js ''&gt;'')
           (replaceAll 60 (js ''&lt;'')
             (replaceAll 38 (js ''&amp;'') serial))))"

definition textSvg :: "config \<Rightarrow> jsstr \<Rightarrow> text_svg" where
  "textSvg cfg serial =
     \<lparr>t_width = qrWidth cfg, t_height = textHeight cfg, t_background = colorLight cfg,
      t_font_size = fontSize cfg, t_fill = colorDark cfg, t_content = escapedSerial serial\<rparr>"

definition output_format :: "config \<Rightarrow> jsstr" where
  "output_format cfg = (if format cfg = js ''png'' then js ''png'' else js ''jpeg'')"

text \<open>
  The calls on \<open>sharpInstance\<close>; \<open>logo\<close> is \<open>Some (logoBg, logoResized)\<close> exactly when
  \<open>logoPath\<close> is set.
\<close>

definition styled_ops :: "config \<Rightarrow> (buffer \<times> buffer) option \<Rightarrow> jsstr \<Rightarrow> sharp_op list" where
  "styled_ops cfg logo serial =
     (case logo of
        Some (logoBg, logoResized) \<Rightarrow>
          [Composite [Overlay_buffer logoBg Center, Overlay_buffer logoResized Center]]
      | None \<Rightarrow> []) @
     (if shouldShowText cfg then
        [Extend (textHeight cfg) (colorLight cfg),
         Composite [Overlay_text (textSvg cfg serial) South]]
      else []) @
     [ToFormat (output_format cfg) 90]"

definition styled_svg :: "config \<Rightarrow> qrdata \<Rightarrow> svg_doc" where
  "styled_svg cfg qr =
     \<lparr>viewBox_size = modules_size qr, svg_width = qrWidth cfg, background = colorLight cfg,
      shapes = styled_shapes cfg qr\<rparr>"

text \<open>The else branch of \<open>processRecord\<close>.\<close>

definition styled_render :: "libs \<Rightarrow> config \<Rightarrow> (buffer \<times> buffer) option \<Rightarrow> jsstr \<Rightarrow> buffer option" where
  "styled_render L cfg logo serial =
     (case QRCode_create L serial (errorCorrectionLevel cfg) of
        None \<Rightarrow> None
      | Some qrData \<Rightarrow> sharp_toBuffer L (styled_svg cfg qrData) (styled_ops cfg logo serial))"

definition fast_opts :: "config \<Rightarrow> jsstr option \<Rightarrow> rat option \<Rightarrow> qr_opts" where
  "fast_opts cfg ty q =
     \<lparr>o_width = qrWidth cfg, o_margin = marginInt cfg,
      o_errorCorrectionLevel = errorCorrectionLevel cfg, o_type = ty,
      o_dark = colorDark cfg, o_light = colorLight cfg, o_quality = q\<rparr>"

definition processRecord :: "libs \<Rightarrow> config \<Rightarrow> (buffer \<times> buffer) option \<Rightarrow> jsstr \<Rightarrow> buffer option" where
  "processRecord L cfg logo serial =
     (if moduleStyle cfg = js ''square'' \<and> eyeStyle cfg = js ''square'' \<and> logo = None \<and>
         \<not> shouldShowText cfg then
        if format cfg = js ''png'' then QRCode_toBuffer L serial (fast_opts cfg None None)
        else QRCode_toDataURL L serial (fast_opts cfg (Some (js ''image/jpeg'')) (Some (9 / 10)))
      else styled_render L cfg logo serial)"

section \<open>The archive and the batch scheduler of index.js\<close>

datatype content = Text jsstr | Image buffer

type_synonym member = "jsstr \<times> content"

definition CONCURRENCY_LIMIT :: nat where
  "CONCURRENCY_LIMIT = 50"

text \<open>\<open>const ext = format === 'png' ? 'png' : 'jpg'\<close>\<close>

definition ext_of :: "config \<Rightarrow> jsstr" where
  "ext_of cfg = (if format cfg = js ''png'' then js ''png'' else js ''jpg'')"

text \<open>
  The callback mapped over a chunk: the \<open>try\<close> returns \<open>{serial, buf}\<close>, the \<open>catch\<close> returns
  \<open>null\<close>. \<open>Promise.all\<close> keeps the results in the order of the chunk.
\<close>

definition try_record :: "(jsstr \<Rightarrow> buffer option) \<Rightarrow> jsstr \<Rightarrow> (jsstr \<times> buffer) option" where
  "try_record render serial =
     (case render serial of Some buf \<Rightarrow> Some (serial, buf) | None \<Rightarrow> None)"

text \<open>
  \<open>archive.append(content, {name})\<close>: the member joins the archive under the name the
  library makes of \<open>name\<close>.
\<close>

definition archive_append :: "(jsstr \<Rightarrow> jsstr) \<Rightarrow> member list \<Rightarrow> content \<Rightarrow> jsstr \<Rightarrow> member list" where
  "archive_append entry_name archive0 c name = archive0 @ [(entry_name name, c)]"

text \<open>The loop \<open>for (const res of results)\<close>: one \<open>archive.append\<close> per non-null result.\<close>

definition append_results ::
  "(jsstr \<Rightarrow> jsstr) \<Rightarrow> jsstr \<Rightarrow> (jsstr \<times> buffer) option list \<Rightarrow> member list \<Rightarrow> member list" where
  "append_results entry_name ext results archive0 =
     fold (\<lambda>res a. case res of
                      Some (serial, buf) \<Rightarrow>
                        archive_append entry_name a (Image buf) (serial @ js ''.'' @ ext)
                    | None \<Rightarrow> a)
       results archive0"

function chunk_loop ::
  "(jsstr \<Rightarrow> jsstr) \<Rightarrow> (jsstr \<Rightarrow> buffer option) \<Rightarrow> jsstr \<Rightarrow> jsstr list \<Rightarrow> nat \<Rightarrow> member list \<Rightarrow>
   member list" where
  "chunk_loop entry_name render ext records i archive0 =
     (if i < length records then
        let chunk = take CONCURRENCY_LIMIT (drop i records);
            results = map (try_record render) chunk
        in chunk_loop entry_name render ext records (i + CONCURRENCY_LIMIT)
             (append_results entry_name ext results archive0)
      else archive0)"
  by pat_completeness auto
termination
  by (relation "measure (\<lambda>(entry_name, render, ext, records, i, archive0). length records - i)")
     (auto simp: CONCURRENCY_LIMIT_def)

declare chunk_loop.simps [simp del]

section \<open>Temporary files\<close>

text \<open>
  The upload directory: the paths that exist, and every successful \<open>fs.unlinkSync\<close> call in
  order. \<open>unlinkSync\<close> of a missing path throws (\<open>None\<close>).
\<close>

record fs_state =
  existing :: "path set"
  unlink_calls :: "path list"

definition unlinkSync :: "path \<Rightarrow> fs_state \<Rightarrow> fs_state option" where
  "unlinkSync p d =
     (if p \<in> existing d then
        Some \<lparr>existing = existing d - {p}, unlink_calls = unlink_calls d @ [p]\<rparr>
      else None)"

text \<open>\<open>if (p && fs.existsSync(p)) fs.unlinkSync(p)\<close>\<close>

definition unlink_if_exists :: "path option \<Rightarrow> fs_state \<Rightarrow> fs_state" where
  "unlink_if_exists p d =
     (case p of
        None \<Rightarrow> d
      | Some q \<Rightarrow> (case unlinkSync q d of Some d' \<Rightarrow> d' | None \<Rightarrow> d))"

text \<open>The body shared by the \<open>archive.on('end')\<close> and \<open>res.on('close')\<close> handlers.\<close>

definition cleanup :: "path option \<Rightarrow> path option \<Rightarrow> fs_state \<Rightarrow> fs_state" where
  "cleanup filePath logoPath d = unlink_if_exists logoPath (unlink_if_exists filePath d)"

section \<open>The handler of \<open>POST /api/generate\<close> in index.js\<close>

record request =
  file_upload :: "path option"
  logo_upload :: "path option"
  body :: config

text \<open>
  How the handler answers. \<open>BadRequest\<close> is \<open>res.status(400).json({error: ...})\<close>;
  \<open>ServerError\<close> is the outer \<open>catch\<close> block (status 500 with a JSON body when the headers
  are not sent yet, otherwise the stream is left unfinished); \<open>ZipDownload\<close> means
  \<open>archive.finalize()\<close> was reached.
\<close>

datatype reply = BadRequest jsstr | ServerError | ZipDownload

record result =
  reply :: reply
  headers :: "(jsstr \<times> jsstr) list"
  archive :: "member list"
  disk :: fs_state
  cleanup_registered :: bool

text \<open>
  \<open>xlsx.readFile(filePath)\<close> followed by \<open>sheet_to_json\<close> of the first sheet: reading a path
  that is not on disk throws, as does whatever the library rejects.
\<close>

definition readSheet :: "libs \<Rightarrow> path \<Rightarrow> fs_state \<Rightarrow> row list option" where
  "readSheet L p d = (if p \<in> existing d then xlsx_readFile L p else None)"

definition catch_block ::
  "path \<Rightarrow> (jsstr \<times> jsstr) list \<Rightarrow> member list \<Rightarrow> bool \<Rightarrow> fs_state \<Rightarrow> result" where
  "catch_block filePath hs ar reg d =
     \<lparr>reply = ServerError, headers = hs, archive = ar,
      disk = unlink_if_exists (Some filePath) d, cleanup_registered = reg\<rparr>"

text \<open>The \<open>res.set\<close> calls that surface the counts.\<close>

definition count_headers :: "nat \<Rightarrow> extraction \<Rightarrow> (jsstr \<times> jsstr) list" where
  "count_headers n_rows ex =
     [(js ''Access-Control-Expose-Headers'',
       js ''X-Total-Count, X-Success-Count, X-Skipped-Count, Content-Disposition''),
      (js ''X-Total-Count'', digits (n_rows - startIndex)),
      (js ''X-Success-Count'', digits (length (validRecords ex))),
      (js ''X-Skipped-Count'', digits (length (errors ex)))]"

text \<open>
  \<open>archive.append(reportContent, { name: 'report.txt' })\<close> on the empty archive adds this
  member.
\<close>

definition report_member :: "(jsstr \<Rightarrow> jsstr) \<Rightarrow> nat \<Rightarrow> extraction \<Rightarrow> member" where
  "report_member entry_name n_rows ex =
     (entry_name (js ''report.txt''), Text (reportContent (n_rows - startIndex) ex))"

text \<open>
  The logo is pre-processed once: outer \<open>None\<close> is a rejected \<open>sharp\<close> promise, \<open>Some None\<close> is
  a request without a logo.
\<close>

definition prepare_logo :: "libs \<Rightarrow> config \<Rightarrow> path option \<Rightarrow> (buffer \<times> buffer) option option" where
  "prepare_logo L cfg logoPath =
     (case logoPath of
        None \<Rightarrow> Some None
      | Some lp \<Rightarrow>
          (case sharp_logoBg L (lSize cfg + 10) (colorLight cfg) of
             None \<Rightarrow> None
           | Some logoBg \<Rightarrow>
               (case sharp_logoResized L lp (lSize cfg) of
                  None \<Rightarrow> None
                | Some logoResized \<Rightarrow> Some (Some (logoBg, logoResized)))))"

definition no_file_message :: jsstr where
  "no_file_message = js ''No data file uploaded''"

definition no_records_message :: jsstr where
  "no_records_message = js ''No valid records found in the selected column.''"

text \<open>
  The handler from the check of \<open>req.files\<close> to \<open>archive.finalize()\<close>. The optional
  \<open>UploadLog\<close> record (saved without waiting, its failure only logged) and the archiver's
  own error event are left out.
\<close>

definition generate :: "libs \<Rightarrow> request \<Rightarrow> fs_state \<Rightarrow> result" where
  "generate L req d =
     (case file_upload req of
        None \<Rightarrow>
          \<lparr>reply = BadRequest no_file_message, headers = [], archive = [], disk = d,
           cleanup_registered = False\<rparr>
      | Some filePath \<Rightarrow>
          (let logoPath = logo_upload req; cfg = body req in
           case readSheet L filePath d of
             None \<Rightarrow> catch_block filePath [] [] False d
           | Some rawData \<Rightarrow>
               (let ex = extractRecords (colIndex cfg) rawData in
                if length (validRecords ex) = 0 then
                  (case unlinkSync filePath d of
                     None \<Rightarrow> catch_block filePath [] [] False d
                   | Some d' \<Rightarrow>
                       \<lparr>reply = BadRequest no_records_message, headers = [], archive = [],
                        disk = d', cleanup_registered = False\<rparr>)
                else
                  (let hs = count_headers (length rawData) ex;
                       archive0 = archive_append (archiver_entry_name L) []
                                    (Text (reportContent (length rawData - startIndex) ex))
                                    (js ''report.txt'')
                   in case prepare_logo L cfg logoPath of
                        None \<Rightarrow> catch_block filePath hs archive0 True d
                      | Some logo \<Rightarrow>
                          \<lparr>reply = ZipDownload, headers = hs,
                           archive = chunk_loop (archiver_entry_name L)
                                       (processRecord L cfg logo) (ext_of cfg)
                                       (validRecords ex) 0 archive0,
                           disk = d, cleanup_registered = True\<rparr>))))"

text \<open>
  After the handler returns, the registered handlers run when their events fire: each
  event of the list runs \<open>cleanup\<close> once.
\<close>

datatype event = ArchiveEnd | ResClose

definition after_events :: "request \<Rightarrow> result \<Rightarrow> event list \<Rightarrow> fs_state" where
  "after_events req res evs =
     (if cleanup_registered res then
        fold (\<lambda>ev d. cleanup (file_upload req) (logo_upload req) d) evs (disk res)
      else disk res)"

section \<open>The second source file (src/unnamed/part_000): sequential variant\<close>

text \<open>One pass over all modules; a finder module takes the module style unless \<open>eyeStyle\<close> is square.\<close>

definition cell_shapes_seq :: "config \<Rightarrow> qrdata \<Rightarrow> nat \<Rightarrow> nat \<Rightarrow> shape list" where
  "cell_shapes_seq cfg qr r c =
     (let sz = modules_size qr in
      if module_dark qr (r * sz + c) then
        let isF = isFinder sz r c;
            shapeStyle = (if isF \<and> eyeStyle cfg = js ''square'' then js ''square''
                          else moduleStyle cfg)
        in [module_shape shapeStyle (colorDark cfg) r c]
      else [])"

definition shapes_seq :: "config \<Rightarrow> qrdata \<Rightarrow> shape list" where
  "shapes_seq cfg qr =
     concat (map (\<lambda>r. concat (map (\<lambda>c. cell_shapes_seq cfg qr r c) [0..<modules_size qr]))
       [0..<modules_size qr])"

definition svg_seq :: "config \<Rightarrow> qrdata \<Rightarrow> svg_doc" where
  "svg_seq cfg qr =
     \<lparr>viewBox_size = modules_size qr, svg_width = qrWidth cfg, background = colorLight cfg,
      shapes = shapes_seq cfg qr\<rparr>"

definition encode_op :: "config \<Rightarrow> sharp_op" where
  "encode_op cfg = (if format cfg = js ''png'' then Png else Jpeg 90)"

text \<open>The body of \<open>for (const serial of validRecords)\<close> up to the buffer; \<open>None\<close> is a throw.\<close>

definition render_seq :: "libs \<Rightarrow> config \<Rightarrow> path option \<Rightarrow> jsstr \<Rightarrow> buffer option" where
  "render_seq L cfg logoPath serial =
     (if moduleStyle cfg = js ''square'' \<and> eyeStyle cfg = js ''square'' then
        QRCode_toDataURL L serial
          (fast_opts cfg
             (Some (if format cfg = js ''png'' then js ''image/png'' else js ''image/jpeg''))
             (Some (23 / 25)))
      else
        (case QRCode_create L serial (errorCorrectionLevel cfg) of
           None \<Rightarrow> None
         | Some qrData \<Rightarrow>
             (case logoPath of
                None \<Rightarrow> sharp_toBuffer L (svg_seq cfg qrData) [encode_op cfg]
              | Some lp \<Rightarrow>
                  (case sharp_logoBg L (lSize cfg + 10) (colorLight cfg) of
                     None \<Rightarrow> None
                   | Some logoBg \<Rightarrow>
                       (case sharp_logoResized L lp (lSize cfg) of
                          None \<Rightarrow> None
                        | Some logoResized \<Rightarrow>
                            sharp_toBuffer L (svg_seq cfg qrData)
                              [Composite [Overlay_buffer logoBg Center,
                                          Overlay_buffer logoResized Center],
                               encode_op cfg])))))"

text \<open>
  The sequential loop has no \<open>try\<close> of its own: a throw leaves it for the outer \<open>catch\<close>.
  The result is the archive so far and whether the loop ran to its end.
\<close>

fun seq_loop ::
  "(jsstr \<Rightarrow> jsstr) \<Rightarrow> (jsstr \<Rightarrow> buffer option) \<Rightarrow> jsstr \<Rightarrow> jsstr list \<Rightarrow> member list \<Rightarrow>
   member list \<times> bool" where
  "seq_loop entry_name render ext [] archive0 = (archive0, True)"
| "seq_loop entry_name render ext (serial # rest) archive0 =
     (case render serial of
        None \<Rightarrow> (archive0, False)
      | Some buf \<Rightarrow>
          seq_loop entry_name render ext rest
            (archive_append entry_name archive0 (Image buf) (serial @ js ''.'' @ ext)))"

definition generate_seq :: "libs \<Rightarrow> request \<Rightarrow> fs_state \<Rightarrow> result" where
  "generate_seq L req d =
     (case file_upload req of
        None \<Rightarrow>
          \<lparr>reply = BadRequest no_file_message, headers = [], archive = [], disk = d,
           cleanup_registered = False\<rparr>
      | Some filePath \<Rightarrow>
          (let logoPath = logo_upload req; cfg = body req in
           case readSheet L filePath d of
             None \<Rightarrow> catch_block filePath [] [] False d
           | Some rawData \<Rightarrow>
               (let ex = extractRecords (colIndex cfg) rawData in
                if length (validRecords ex) = 0 then
                  (case unlinkSync filePath d of
                     None \<Rightarrow> catch_block filePath [] [] False d
                   | Some d' \<Rightarrow>
                       \<lparr>reply = BadRequest no_records_message, headers = [], archive = [],
                        disk = d', cleanup_registered = False\<rparr>)
                else
                  (let hs = count_headers (length rawData) ex;
                       archive0 = archive_append (archiver_entry_name L) []
                                    (Text (reportContent (length rawData - startIndex) ex))
                                    (js ''report.txt'')
                   in case seq_loop (archiver_entry_name L) (render_seq L cfg logoPath)
                             (ext_of cfg) (validRecords ex) archive0 of
                        (ar, False) \<Rightarrow> catch_block filePath hs ar True d
                      | (ar, True) \<Rightarrow>
                          \<lparr>reply = ZipDownload, headers = hs, archive = ar, disk = d,
                           cleanup_registered = True\<rparr>))))"

section \<open>Notions used to state the properties\<close>

text \<open>
  \<open>keep_first\<close> keeps the first occurrence of every element, in order; \<open>candidates\<close> are the
  trimmed strings of the cells that pass the emptiness test, row by row; \<open>image_members\<close>
  are the archive members of the identifiers that render, in the order of the list, under
  the names the archiver gives them.
\<close>

fun keep_first :: "'a list \<Rightarrow> 'a list" where
  "keep_first [] = []"
| "keep_first (x # xs) = x # keep_first (removeAll x xs)"

definition candidates :: "nat \<Rightarrow> row list \<Rightarrow> jsstr list" where
  "candidates k rows =
     map (\<lambda>r. trim (String (cell_at r k))) (filter (\<lambda>r. \<not> isEmptyValue (cell_at r k)) rows)"

definition empty_entry :: "nat \<Rightarrow> ledger_entry" where
  "empty_entry n = \<lparr>row_no = n, error = EmptyValue, dup_value = None\<rparr>"

definition dup_entry :: "nat \<Rightarrow> jsstr \<Rightarrow> ledger_entry" where
  "dup_entry n v = \<lparr>row_no = n, error = DuplicateSerial, dup_value = Some v\<rparr>"

definition image_members ::
  "(jsstr \<Rightarrow> jsstr) \<Rightarrow> (jsstr \<Rightarrow> buffer option) \<Rightarrow> jsstr \<Rightarrow> jsstr list \<Rightarrow> member list" where
  "image_members entry_name render ext records =
     map (\<lambda>s. (entry_name (s @ js ''.'' @ ext), Image (the (render s))))
       (filter (\<lambda>s. render s \<noteq> None) records)"


text \<open>The entity that stands for one character in XML text; other characters stand for themselves.\<close>

definition xml_entity :: "nat \<Rightarrow> jsstr" where
  "xml_entity u =
     (if u = 38 then js ''&amp;'' else if u = 60 then js ''&lt;'' else if u = 62 then js ''&gt;''
      else if u = 34 then js ''&quot;'' else if u = 39 then js ''&apos;'' else [u])"

text \<open>What an XML reader displays for a text node: the five predefined entities decoded.\<close>

fun unescapeXml :: "jsstr \<Rightarrow> jsstr" where
  "unescapeXml [] = []"
| "unescapeXml (u # rest) =
     (if u = 38 \<and> take 4 rest = js ''amp;'' then 38 # unescapeXml (drop 4 rest)
      else if u = 38 \<and> take 3 rest = js ''lt;'' then 60 # unescapeXml (drop 3 rest)
      else if u = 38 \<and> take 3 rest = js ''gt;'' then 62 # unescapeXml (drop 3 rest)
      else if u = 38 \<and> take 5 rest = js ''quot;'' then 34 # unescapeXml (drop 5 rest)
      else if u = 38 \<and> take 5 rest = js ''apos;'' then 39 # unescapeXml (drop 5 rest)
      else u # unescapeXml rest)"

section \<open>Sample inputs\<close>

definition default_config :: config where
  "default_config =
     \<lparr>qrWidth = 300, marginInt = 4, errorCorrectionLevel = js ''M'', colIndex = 0,
      format = js ''jpeg'', colorDark = js ''#000000'', colorLight = js ''#ffffff'',
      moduleStyle = js ''square'', eyeStyle = js ''square'', textHeight = 45, fontSize = 18,
      lSize = 60, showText = Str (js ''false'')\<rparr>"

text \<open>
  An entry-name function that drops every leading \<open>../\<close> and \<open>/\<close> and leaves other names as
  they are, as \<open>archiver\<close> does with such names.
\<close>

function drops_leading_dirs :: "jsstr \<Rightarrow> jsstr" where
  "drops_leading_dirs name =
     (if take 3 name = [46, 46, 47] then drops_leading_dirs (drop 3 name)
      else if take 1 name = [47] then drops_leading_dirs (drop 1 name)
      else name)"
  by pat_completeness auto
termination
proof (relation "measure length")
  show "wf (measure length)" by simp
next
  fix name :: jsstr
  assume "take 3 name = [46, 46, 47]"
  then have "name \<noteq> []" by auto
  then show "(drop 3 name, name) \<in> measure length" by simp
next
  fix name :: jsstr
  assume "take 1 name = [47]"
  then have "name \<noteq> []" by auto
  then show "(drop 1 name, name) \<in> measure length" by simp
qed

declare drops_leading_dirs.simps [simp del]

definition sample_libs :: "row list \<Rightarrow> (jsstr \<Rightarrow> buffer option) \<Rightarrow> libs" where
  "sample_libs rows enc =
     \<lparr>xlsx_readFile = (\<lambda>p. Some rows),
      QRCode_toBuffer = (\<lambda>s opts. enc s),
      QRCode_toDataURL = (\<lambda>s opts. enc s),
      QRCode_create = (\<lambda>s ecl. None),
      sharp_toBuffer = (\<lambda>svg ops. None),
      sharp_logoBg = (\<lambda>n c. None),
      sharp_logoResized = (\<lambda>p n. None),
      archiver_entry_name = drops_leading_dirs\<rparr>"

definition sample_request :: request where
  "sample_request =
     \<lparr>file_upload = Some (js ''uploads/1-data.xlsx''), logo_upload = None, body = default_config\<rparr>"

definition fresh_disk :: fs_state where
  "fresh_disk = \<lparr>existing = {js ''uploads/1-data.xlsx''}, unlink_calls = []\<rparr>"

definition aba_rows :: "row list" where
  "aba_rows = [[Str (js ''A'')], [Str (js ''B'')], [Str (js ''A'')]]"

definition falsy_rows :: "row list" where
  "falsy_rows = [[Num 0], [Bool False], [Str (js ''  '')], [Null]]"

definition blank_rows :: "row list" where
  "blank_rows = [[Null], [Str []], []]"

definition gap_rows :: "row list" where
  "gap_rows = [[Str (js ''A'')], [Str (js '' '')], [Str (js ''C'')]]"

text \<open>An encoder that rejects the empty text, as \<open>qrcode\<close> does ("No input text").\<close>

definition rejects_empty :: "jsstr \<Rightarrow> buffer option" where
  "rejects_empty s = (if s = [] then None else Some [1])"




text \<open>An identifier that holds each of the five characters.\<close>

definition markup_serial :: jsstr where
  "markup_serial = js ''a<b>&c'' @ [34, 39]"

definition caption_config :: config where
  "caption_config = default_config\<lparr>showText := Str (js ''true'')\<rparr>"

definition logo_request :: request where
  "logo_request = sample_request\<lparr>logo_upload := Some (js ''uploads/2-logo.png'')\<rparr>"

definition logo_disk :: fs_state where
  "logo_disk =
     \<lparr>existing = {js ''uploads/1-data.xlsx'', js ''uploads/2-logo.png''}, unlink_calls = []\<rparr>"

text \<open>One row whose identifier starts with a parent-directory step.\<close>

definition dotdot_rows :: "row list" where
  "dotdot_rows = [[Str (js ''../x'')]]"

section \<open>Properties of the extraction loop\<close>

lemma extract_loop_count:
  "length (validRecords (extract_loop k i rows st)) + length (errors (extract_loop k i rows st)) =
   length (validRecords st) + length (errors st) + length rows"
  by (induction rows arbitrary: i st) (simp_all add: Let_def)

lemma removeAll_filter_notin:
  "removeAll s (filter (\<lambda>x. x \<notin> S) xs) = filter (\<lambda>x. x \<notin> insert s S) xs"
  by (induction xs) auto

lemma extract_loop_valid:
  "validRecords (extract_loop k i rows st) =
   validRecords st @ keep_first (filter (\<lambda>x. x \<notin> seen st) (candidates k rows))"
proof (induction rows arbitrary: i st)
  case Nil
  then show ?case by (simp add: candidates_def)
next
  case (Cons r rows)
  show ?case
    by (simp add: Let_def Cons.IH candidates_def removeAll_filter_notin)
qed

lemma extract_loop_seen:
  "seen (extract_loop k i rows st) = seen st \<union> set (candidates k rows)"
  by (induction rows arbitrary: i st) (auto simp: Let_def candidates_def)

lemma set_keep_first: "set (keep_first xs) = set xs"
  by (induction xs rule: keep_first.induct) auto

lemma distinct_keep_first: "distinct (keep_first xs)"
  by (induction xs rule: keep_first.induct) (auto simp: set_keep_first)

lemma last_dropWhile: "dropWhile P xs \<noteq> [] \<Longrightarrow> last (dropWhile P xs) = last xs"
  by (induction xs) (auto split: if_splits)

lemma trim_trimmed:
  "trim s = [] \<or> (\<not> isWhiteSpace (hd (trim s)) \<and> \<not> isWhiteSpace (last (trim s)))"
proof (cases "trim s = []")
  case True
  then show ?thesis by simp
next
  case False
  define t where "t = dropWhile isWhiteSpace s"
  define u where "u = dropWhile isWhiteSpace (rev t)"
  have tr: "trim s = rev u" by (simp add: trim_def t_def u_def)
  with False have u: "u \<noteq> []" by simp
  then have t: "t \<noteq> []" by (auto simp: u_def)
  have "\<not> isWhiteSpace (hd u)" using u unfolding u_def by (rule hd_dropWhile)
  then have l: "\<not> isWhiteSpace (last (trim s))" using u by (simp add: tr last_rev)
  have "last u = last (rev t)" using u unfolding u_def by (rule last_dropWhile)
  then have "hd (trim s) = hd t" using u t by (simp add: tr hd_rev last_rev)
  moreover have "\<not> isWhiteSpace (hd t)" using t unfolding t_def by (rule hd_dropWhile)
  ultimately show ?thesis using l by simp
qed

lemma seen_valid_inv:
  "seen st = set (validRecords st) \<Longrightarrow>
   seen (extract_loop k i rows st) = set (validRecords (extract_loop k i rows st))"
  by (simp add: extract_loop_seen extract_loop_valid set_keep_first) auto

lemma candidates_Nil [simp]: "candidates k [] = []"
  by (simp add: candidates_def)

lemma candidates_Cons:
  "candidates k (r # rows) =
     (if isEmptyValue (cell_at r k) then candidates k rows
      else trim (String (cell_at r k)) # candidates k rows)"
  by (simp add: candidates_def)

lemma extract_loop_errors:
  "set (errors (extract_loop k i rows st)) =
   set (errors st) \<union>
   {empty_entry (i + j + 1) | j. j < length rows \<and> isEmptyValue (cell_at (rows ! j) k)} \<union>
   {dup_entry (i + j + 1) (trim (String (cell_at (rows ! j) k))) | j.
      j < length rows \<and> \<not> isEmptyValue (cell_at (rows ! j) k) \<and>
      trim (String (cell_at (rows ! j) k)) \<in> seen st \<union> set (candidates k (take j rows))}"
proof (induction rows arbitrary: i st)
  case Nil
  then show ?case by simp
next
  case (Cons r rows)
  show ?case
    apply (simp add: Let_def Cons.IH less_Suc_eq_0_disj empty_entry_def dup_entry_def candidates_Cons)
    apply (intro conjI impI)
    apply (auto simp: candidates_Cons)
    done
qed

lemma extractRecords_count:
  "length (validRecords (extractRecords k rows)) + length (errors (extractRecords k rows)) =
   length rows"
  by (simp add: extractRecords_def startIndex_def extract_loop_count)

lemma generate_headers:
  assumes "file_upload req = Some fp" and "readSheet L fp d = Some rawData"
    and "validRecords (extractRecords (colIndex (body req)) rawData) \<noteq> []"
  shows "headers (generate L req d) =
           count_headers (length rawData) (extractRecords (colIndex (body req)) rawData)"
  using assms by (simp add: generate_def Let_def catch_block_def split: option.splits)

lemma generate_seq_headers:
  assumes "file_upload req = Some fp" and "readSheet L fp d = Some rawData"
    and "validRecords (extractRecords (colIndex (body req)) rawData) \<noteq> []"
  shows "headers (generate_seq L req d) =
           count_headers (length rawData) (extractRecords (colIndex (body req)) rawData)"
  using assms
  by (simp add: generate_seq_def Let_def catch_block_def split: option.splits prod.splits bool.splits)

lemma aba_extract:
  "extractRecords 0 aba_rows =
     \<lparr>validRecords = [js ''A'', js ''B''],
      errors = [\<lparr>row_no = 3, error = DuplicateSerial, dup_value = Some (js ''A'')\<rparr>],
      seen = {js ''A'', js ''B''}\<rparr>"
  by (simp add: extractRecords_def startIndex_def aba_rows_def cell_at_def isEmptyValue_def
      trim_def isWhiteSpace_def js_def Let_def insert_commute)

lemma extractRecords_errors:
  "set (errors (extractRecords k rows)) =
   {empty_entry (j + 1) | j. j < length rows \<and> isEmptyValue (cell_at (rows ! j) k)} \<union>
   {dup_entry (j + 1) (trim (String (cell_at (rows ! j) k))) | j.
      j < length rows \<and> \<not> isEmptyValue (cell_at (rows ! j) k) \<and>
      trim (String (cell_at (rows ! j) k)) \<in> set (candidates k (take j rows))}"
  by (simp add: extractRecords_def startIndex_def extract_loop_errors)

lemma extractRecords_valid:
  "validRecords (extractRecords k rows) = keep_first (candidates k rows)"
  by (simp add: extractRecords_def startIndex_def extract_loop_valid)

lemma candidate_mem:
  "j < length rows \<Longrightarrow> \<not> isEmptyValue (cell_at (rows ! j) k) \<Longrightarrow>
   trim (String (cell_at (rows ! j) k)) \<in> set (candidates k rows)"
  unfolding candidates_def by (metis (mono_tags, lifting) image_eqI mem_Collect_eq nth_mem set_filter set_map)

lemma trim_all_whitespace: "list_all isWhiteSpace s \<Longrightarrow> trim s = []"
proof -
  assume "list_all isWhiteSpace s"
  then have d: "dropWhile isWhiteSpace s = []" by (induction s) auto
  show ?thesis by (simp only: trim_def d rev.simps dropWhile.simps)
qed

lemma empty_ledger_rows:
  "(\<exists>e \<in> set (errors (extractRecords k rows)). row_no e = n \<and> error e = EmptyValue) \<longleftrightarrow>
   (0 < n \<and> n \<le> length rows \<and> isEmptyValue (cell_at (rows ! (n - 1)) k))"
proof
  assume "\<exists>e \<in> set (errors (extractRecords k rows)). row_no e = n \<and> error e = EmptyValue"
  then show "0 < n \<and> n \<le> length rows \<and> isEmptyValue (cell_at (rows ! (n - 1)) k)"
    by (auto simp: extractRecords_errors empty_entry_def dup_entry_def)
next
  assume a: "0 < n \<and> n \<le> length rows \<and> isEmptyValue (cell_at (rows ! (n - 1)) k)"
  then have "empty_entry (n - 1 + 1) \<in> set (errors (extractRecords k rows))"
    unfolding extractRecords_errors by (intro UnI1 CollectI exI [of _ "n - 1"]) auto
  with a show "\<exists>e \<in> set (errors (extractRecords k rows)). row_no e = n \<and> error e = EmptyValue"
    by (auto simp: empty_entry_def intro!: bexI [of _ "empty_entry n"])
qed

lemma falsy_extract:
  "extractRecords 0 falsy_rows =
     \<lparr>validRecords = [js ''0'', js ''false'', []],
      errors = [\<lparr>row_no = 4, error = EmptyValue, dup_value = None\<rparr>],
      seen = {js ''0'', js ''false'', []}\<rparr>"
  by (simp add: extractRecords_def startIndex_def falsy_rows_def cell_at_def isEmptyValue_def
      trim_def isWhiteSpace_def js_def Let_def digits.simps insert_commute zero_safe_int.rep_eq)

lemma accepted_identifiers:
  "validRecords (extractRecords k rows) = keep_first (candidates k rows) \<and>
   distinct (validRecords (extractRecords k rows)) \<and>
   list_all (\<lambda>s. s = [] \<or> (\<not> isWhiteSpace (hd s) \<and> \<not> isWhiteSpace (last s)))
     (validRecords (extractRecords k rows))"
proof -
  have "list_all (\<lambda>s. s = [] \<or> (\<not> isWhiteSpace (hd s) \<and> \<not> isWhiteSpace (last s)))
          (keep_first (candidates k rows))"
    unfolding list_all_iff set_keep_first candidates_def using trim_trimmed by auto
  then show ?thesis
    by (simp add: extractRecords_valid distinct_keep_first)
qed

lemma reappearing_value_in_ledger:
  assumes "i < j" and "j < length rows"
    and "\<not> isEmptyValue (cell_at (rows ! i) k)" and "\<not> isEmptyValue (cell_at (rows ! j) k)"
    and "trim (String (cell_at (rows ! i) k)) = trim (String (cell_at (rows ! j) k))"
  shows "\<lparr>row_no = j + 1, error = DuplicateSerial,
           dup_value = Some (trim (String (cell_at (rows ! j) k)))\<rparr>
         \<in> set (errors (extractRecords k rows))"
proof -
  have "trim (String (cell_at (take j rows ! i) k)) \<in> set (candidates k (take j rows))"
    using assms by (intro candidate_mem) auto
  then have "trim (String (cell_at (rows ! j) k)) \<in> set (candidates k (take j rows))"
    using assms by simp
  then show ?thesis
    unfolding extractRecords_errors dup_entry_def using assms by blast
qed

lemma readSheet_on_disk: "readSheet L fp d = Some rawData \<Longrightarrow> fp \<in> existing d"
  by (simp add: readSheet_def split: if_splits)

section \<open>Properties of the scheduler and the handlers\<close>

lemma image_members_append:
  "image_members e render ext (xs @ ys) =
     image_members e render ext xs @ image_members e render ext ys"
  by (simp add: image_members_def)

lemma append_results_eq:
  "append_results e ext (map (try_record render) chunk) ar = ar @ image_members e render ext chunk"
proof (induction chunk arbitrary: ar)
  case Nil
  then show ?case by (simp add: append_results_def image_members_def)
next
  case (Cons s chunk)
  then show ?case
    by (cases "render s")
      (simp_all add: append_results_def image_members_def try_record_def archive_append_def)
qed

lemma chunk_loop_eq:
  "chunk_loop e render ext records i ar = ar @ image_members e render ext (drop i records)"
proof (induction e render ext records i ar rule: chunk_loop.induct)
  case (1 e render ext records i archive0)
  show ?case
  proof (cases "i < length records")
    case True
    have "drop i records =
            take CONCURRENCY_LIMIT (drop i records) @ drop (i + CONCURRENCY_LIMIT) records"
      using append_take_drop_id [of CONCURRENCY_LIMIT "drop i records"]
      by (simp only: drop_drop add.commute)
    then have "image_members e render ext (drop i records) =
            image_members e render ext (take CONCURRENCY_LIMIT (drop i records)) @
            image_members e render ext (drop (i + CONCURRENCY_LIMIT) records)"
      by (metis image_members_append)
    with True 1 show ?thesis
      by (subst chunk_loop.simps) (simp add: Let_def append_results_eq)
  next
    case False
    then show ?thesis
      by (subst chunk_loop.simps) (simp add: image_members_def)
  qed
qed

lemma seq_loop_all_render:
  "list_all (\<lambda>s. render s \<noteq> None) records \<Longrightarrow>
   seq_loop e render ext records ar = (ar @ image_members e render ext records, True)"
  by (induction records arbitrary: ar) (auto simp: image_members_def archive_append_def)

lemma gap_extract:
  "extractRecords 0 gap_rows =
     \<lparr>validRecords = [js ''A'', [], js ''C''], errors = [], seen = {js ''A'', [], js ''C''}\<rparr>"
  by (simp add: extractRecords_def startIndex_def gap_rows_def cell_at_def isEmptyValue_def
      trim_def isWhiteSpace_def js_def Let_def insert_commute)

lemma sample_context:
  "file_upload sample_request = Some (js ''uploads/1-data.xlsx'')"
  "readSheet (sample_libs rows enc) (js ''uploads/1-data.xlsx'') fresh_disk = Some rows"
  "colIndex (body sample_request) = 0"
  "colIndex default_config = 0"
  "logo_upload sample_request = None"
  "body sample_request = default_config"
  by (simp_all add: sample_request_def sample_libs_def readSheet_def fresh_disk_def
      default_config_def)

lemma sample_entry_name: "archiver_entry_name (sample_libs rows enc) = drops_leading_dirs"
  by (simp add: sample_libs_def)

lemma sample_processRecord:
  "processRecord (sample_libs rows enc) default_config None = enc"
  by (rule ext) (simp add: processRecord_def sample_libs_def default_config_def shouldShowText_def js_def)

lemma archive0_report:
  "archive_append e [] (Text (reportContent (n - startIndex) ex)) (js ''report.txt'') =
     [report_member e n ex]"
  by (simp add: archive_append_def report_member_def)

lemma generate_run:
  assumes "file_upload req = Some fp" and "readSheet L fp d = Some rawData"
    and "ex = extractRecords (colIndex (body req)) rawData"
    and "validRecords ex \<noteq> []"
    and "prepare_logo L (body req) (logo_upload req) = Some logo"
  shows "reply (generate L req d) = ZipDownload"
    and "archive (generate L req d) =
           report_member (archiver_entry_name L) (length rawData) ex #
           image_members (archiver_entry_name L) (processRecord L (body req) logo)
             (ext_of (body req)) (validRecords ex)"
  using assms by (simp_all add: generate_def Let_def chunk_loop_eq archive0_report)

lemma generate_logo_failure:
  assumes "file_upload req = Some fp" and "readSheet L fp d = Some rawData"
    and "ex = extractRecords (colIndex (body req)) rawData"
    and "validRecords ex \<noteq> []"
    and "prepare_logo L (body req) (logo_upload req) = None"
  shows "reply (generate L req d) = ServerError"
    and "archive (generate L req d) = [report_member (archiver_entry_name L) (length rawData) ex]"
  using assms by (simp_all add: generate_def Let_def catch_block_def archive0_report)

lemma generate_seq_run:
  assumes "file_upload req = Some fp" and "readSheet L fp d = Some rawData"
    and "ex = extractRecords (colIndex (body req)) rawData"
    and "validRecords ex \<noteq> []"
    and "seq_loop (archiver_entry_name L) (render_seq L (body req) (logo_upload req))
           (ext_of (body req)) (validRecords ex)
           [report_member (archiver_entry_name L) (length rawData) ex] = (ar, fin)"
  shows "reply (generate_seq L req d) = (if fin then ZipDownload else ServerError)"
    and "archive (generate_seq L req d) = ar"
  using assms
  by (simp_all add: generate_seq_def Let_def catch_block_def archive0_report split: bool.splits)

lemma filter_all_but_one:
  assumes "distinct xs" and "s0 \<in> set xs" and "P s0 = False"
    and "\<And>s. s \<in> set xs \<Longrightarrow> s \<noteq> s0 \<Longrightarrow> P s"
  shows "filter P xs = removeAll s0 xs" and "Suc (length (filter P xs)) = length xs"
proof -
  show e: "filter P xs = removeAll s0 xs"
    using assms(3,4) by (induction xs) auto
  have "length (removeAll s0 xs) = length xs - 1"
    using assms(1,2) by (simp add: distinct_remove1_removeAll [symmetric] length_remove1)
  moreover have "0 < length xs" using assms(2) by (cases xs) auto
  ultimately show "Suc (length (filter P xs)) = length xs" using e by simp
qed

text \<open>
  index.js isolates a failing record: when exactly one accepted identifier fails to render,
  the batch still ends with \<open>archive.finalize()\<close>, and the archive holds the report and one
  image for each of the other identifiers, in order.
\<close>

lemma generate_isolates_one_failure:
  assumes "file_upload req = Some fp" and "readSheet L fp d = Some rawData"
    and "ex = extractRecords (colIndex (body req)) rawData"
    and "prepare_logo L (body req) (logo_upload req) = Some logo"
    and "render = processRecord L (body req) logo"
    and "s0 \<in> set (validRecords ex)" and "render s0 = None"
    and "\<And>s. s \<in> set (validRecords ex) \<Longrightarrow> s \<noteq> s0 \<Longrightarrow> render s \<noteq> None"
  shows "reply (generate L req d) = ZipDownload"
    and "archive (generate L req d) =
           (archiver_entry_name L (js ''report.txt''), Text (reportContent (length rawData) ex)) #
           map (\<lambda>serial. (archiver_entry_name L (serial @ js ''.'' @ ext_of (body req)),
                           Image (the (render serial))))
             (removeAll s0 (validRecords ex))"
    and "length (archive (generate L req d)) = length (validRecords ex)"
proof -
  have ne: "validRecords ex \<noteq> []" using assms(6) by auto
  have dist: "distinct (validRecords ex)"
    by (simp add: assms(3) extractRecords_valid distinct_keep_first)
  have f: "filter (\<lambda>s. render s \<noteq> None) (validRecords ex) = removeAll s0 (validRecords ex)"
    "Suc (length (filter (\<lambda>s. render s \<noteq> None) (validRecords ex))) = length (validRecords ex)"
    using filter_all_but_one [OF dist assms(6), of "\<lambda>s. render s \<noteq> None"] assms(7,8) by auto
  have a: "archive (generate L req d) =
           (archiver_entry_name L (js ''report.txt''), Text (reportContent (length rawData) ex)) #
           map (\<lambda>serial. (archiver_entry_name L (serial @ js ''.'' @ ext_of (body req)),
                           Image (the (render serial))))
             (filter (\<lambda>s. render s \<noteq> None) (validRecords ex))"
    using generate_run(2) [OF assms(1-3) ne assms(4)] assms(5)
    by (simp add: image_members_def report_member_def startIndex_def)
  show "reply (generate L req d) = ZipDownload"
    by (rule generate_run(1) [OF assms(1-3) ne assms(4)])
  show "archive (generate L req d) =
           (archiver_entry_name L (js ''report.txt''), Text (reportContent (length rawData) ex)) #
           map (\<lambda>serial. (archiver_entry_name L (serial @ js ''.'' @ ext_of (body req)),
                           Image (the (render serial))))
             (removeAll s0 (validRecords ex))"
    using a f(1) by simp
  show "length (archive (generate L req d)) = length (validRecords ex)"
    using a f(2) by simp
qed

lemma sample_render_seq:
  "render_seq (sample_libs rows enc) default_config None = enc"
  by (rule ext) (simp add: render_seq_def sample_libs_def default_config_def js_def)

lemma sample_names:
  "drops_leading_dirs (js ''report.txt'') = js ''report.txt''"
  "drops_leading_dirs (js ''A'' @ js ''.'' @ js ''jpg'') = js ''A.jpg''"
  "drops_leading_dirs (js ''C'' @ js ''.'' @ js ''jpg'') = js ''C.jpg''"
  "drops_leading_dirs (js ''../x'' @ js ''.'' @ js ''jpg'') = js ''x.jpg''"
  by (simp_all add: drops_leading_dirs.simps js_def)

lemma sample_ext: "ext_of (body sample_request) = js ''jpg''"
  by (simp add: sample_context ext_of_def default_config_def js_def)

lemma sample_generate_archive:
  assumes "validRecords (extractRecords 0 rows) \<noteq> []"
  shows "reply (generate (sample_libs rows enc) sample_request fresh_disk) = ZipDownload"
    and "archive (generate (sample_libs rows enc) sample_request fresh_disk) =
           report_member drops_leading_dirs (length rows) (extractRecords 0 rows) #
           image_members drops_leading_dirs enc (js ''jpg'') (validRecords (extractRecords 0 rows))"
proof -
  let ?L = "sample_libs rows enc"
  have h2: "readSheet ?L (js ''uploads/1-data.xlsx'') fresh_disk = Some rows"
    by (rule sample_context)
  have ne: "validRecords (extractRecords (colIndex (body sample_request)) rows) \<noteq> []"
    using assms by (simp add: sample_context)
  have p: "prepare_logo ?L (body sample_request) (logo_upload sample_request) = Some None"
    by (simp add: prepare_logo_def sample_context)
  have pr: "processRecord ?L (body sample_request) None = enc"
    by (simp add: sample_context sample_processRecord)
  show "reply (generate ?L sample_request fresh_disk) = ZipDownload"
    by (rule generate_run(1) [OF sample_context(1) h2 refl ne p])
  show "archive (generate ?L sample_request fresh_disk) =
           report_member drops_leading_dirs (length rows) (extractRecords 0 rows) #
           image_members drops_leading_dirs enc (js ''jpg'') (validRecords (extractRecords 0 rows))"
    using generate_run(2) [OF sample_context(1) h2 refl ne p]
    unfolding pr sample_ext sample_entry_name by (simp add: sample_context)
qed

lemma dotdot_extract:
  "extractRecords 0 dotdot_rows =
     \<lparr>validRecords = [js ''../x''], errors = [], seen = {js ''../x''}\<rparr>"
  by (simp add: extractRecords_def startIndex_def dotdot_rows_def cell_at_def isEmptyValue_def
      trim_def isWhiteSpace_def js_def Let_def)

section \<open>Properties of the renderers\<close>

lemma processRecord_paths:
  "processRecord L cfg logo s =
     (if moduleStyle cfg = js ''square'' \<and> eyeStyle cfg = js ''square'' \<and> logo = None \<and>
         \<not> shouldShowText cfg
      then (if format cfg = js ''png'' then QRCode_toBuffer L s (fast_opts cfg None None)
            else QRCode_toDataURL L s (fast_opts cfg (Some (js ''image/jpeg'')) (Some (9 / 10))))
      else styled_render L cfg logo s)"
  by (simp add: processRecord_def)

lemma logo_takes_styled_path:
  "processRecord L cfg (Some (logoBg, logoResized)) s =
     styled_render L cfg (Some (logoBg, logoResized)) s"
  "hd (styled_ops cfg (Some (logoBg, logoResized)) s) =
     Composite [Overlay_buffer logoBg Center, Overlay_buffer logoResized Center]"
  by (simp_all add: processRecord_def styled_ops_def)

lemma prepared_logo_present:
  "prepare_logo L cfg (Some lp) = Some logo \<Longrightarrow> logo \<noteq> None"
  by (auto simp: prepare_logo_def split: option.splits)












section \<open>Properties of the caption escape\<close>

lemma replaceAll_concat:
  "replaceAll ch rep (concat xss) = concat (map (replaceAll ch rep) xss)"
  by (induction xss) (simp_all add: replaceAll_def)

lemma replaceAll_as_concat_map:
  "replaceAll ch rep (concat (map f s)) = concat (map (\<lambda>u. replaceAll ch rep (f u)) s)"
  by (simp add: replaceAll_concat comp_def)

lemma replaceAll_single: "replaceAll ch rep s = concat (map (\<lambda>u. if u = ch then rep else [u]) s)"
  by (simp add: replaceAll_def)

lemma escapedSerial_single_pass: "escapedSerial s = concat (map xml_entity s)"
proof -
  have e: "replaceAll 39 (js ''&apos;'') (replaceAll 34 (js ''&quot;'')
             (replaceAll 62 (js ''&gt;'') (replaceAll 60 (js ''&lt;'')
               (if u = 38 then js ''&amp;'' else [u])))) = xml_entity u" for u
    by (simp add: replaceAll_def xml_entity_def js_def)
  have "escapedSerial s =
          concat (map (\<lambda>u. replaceAll 39 (js ''&apos;'') (replaceAll 34 (js ''&quot;'')
             (replaceAll 62 (js ''&gt;'') (replaceAll 60 (js ''&lt;'')
               (if u = 38 then js ''&amp;'' else [u]))))) s)"
    unfolding escapedSerial_def
    by (subst replaceAll_single [of 38]) (simp only: replaceAll_as_concat_map)
  then show ?thesis by (simp only: e)
qed

lemma unescape_entity: "unescapeXml (xml_entity u @ t) = u # unescapeXml t"
  by (simp add: xml_entity_def js_def)

lemma unescape_escaped: "unescapeXml (concat (map xml_entity s)) = s"
  by (induction s) (simp_all add: unescape_entity)

lemma entity_no_markup: "set (xml_entity u) \<inter> {60, 62, 34, 39} = {}"
  by (simp add: xml_entity_def js_def)

section \<open>Properties of the clean-up\<close>

lemma cleanup_twice: "cleanup fp lp (cleanup fp lp d) = cleanup fp lp d"
  by (cases fp; cases lp) (auto simp: cleanup_def unlink_if_exists_def unlinkSync_def)

lemma cleanup_releases_both:
  assumes "fp \<in> existing d" and "lp \<in> existing d" and "fp \<noteq> lp"
  shows "cleanup (Some fp) (Some lp) d =
           \<lparr>existing = existing d - {fp, lp}, unlink_calls = unlink_calls d @ [fp, lp]\<rparr>"
  using assms by (auto simp: cleanup_def unlink_if_exists_def unlinkSync_def)

text \<open>
  Where the two handlers are registered and an event fires, both files are released, once
  each, however many of the events fire.
\<close>

lemma finalized_batch_releases_both_once:
  assumes "file_upload req = Some fp" and "logo_upload req = Some lp" and "fp \<noteq> lp"
    and "lp \<in> existing d" and "readSheet L fp d = Some rawData"
    and "validRecords (extractRecords (colIndex (body req)) rawData) \<noteq> []"
    and "prepare_logo L (body req) (logo_upload req) = Some logo"
    and "evs \<noteq> []"
  shows "after_events req (generate L req d) evs =
           \<lparr>existing = existing d - {fp, lp}, unlink_calls = unlink_calls d @ [fp, lp]\<rparr>"
proof -
  have fp: "fp \<in> existing d" using assms(5) by (rule readSheet_on_disk)
  have g: "disk (generate L req d) = d" "cleanup_registered (generate L req d)"
    using assms by (simp_all add: generate_def Let_def)
  have f: "fold (\<lambda>ev. cleanup (Some fp) (Some lp)) evs d = cleanup (Some fp) (Some lp) d"
    using assms(8)
  proof (induction evs arbitrary: d)
    case Nil
    then show ?case by simp
  next
    case (Cons ev evs)
    then show ?case by (cases evs) (simp_all add: cleanup_twice)
  qed
  show ?thesis
    using cleanup_releases_both [OF fp assms(4) assms(3)]
    by (simp add: after_events_def g assms(1,2) f)
qed

section \<open>Claims\<close>

text \<open>
  C4. For every sequence of rows, the number of accepted identifiers plus the number of
  ledger entries equals the number of rows processed, and these three counts are the ones
  the handler writes into the headers X-Total-Count, X-Success-Count and X-Skipped-Count
  (in both source files).
\<close>

theorem counts_add_up_and_surface:
  assumes "file_upload req = Some fp" and "readSheet L fp d = Some rawData"
    and "ex = extractRecords (colIndex (body req)) rawData"
  shows "length (validRecords ex) + length (errors ex) = length rawData \<and>
         (validRecords ex \<noteq> [] \<longrightarrow>
            headers (generate L req d) =
              [(js ''Access-Control-Expose-Headers'',
                js ''X-Total-Count, X-Success-Count, X-Skipped-Count, Content-Disposition''),
               (js ''X-Total-Count'', digits (length rawData)),
               (js ''X-Success-Count'', digits (length (validRecords ex))),
               (js ''X-Skipped-Count'', digits (length (errors ex)))] \<and>
            headers (generate_seq L req d) = headers (generate L req d))"
  using assms generate_headers [of req fp L d rawData] generate_seq_headers [of req fp L d rawData]
  by (simp add: extractRecords_count count_headers_def startIndex_def)

theorem counts_witness:
  "length (validRecords (extractRecords 0 aba_rows)) + length (errors (extractRecords 0 aba_rows)) = 3 \<and>
   headers (generate (sample_libs aba_rows (\<lambda>s. Some [1])) sample_request fresh_disk) =
     [(js ''Access-Control-Expose-Headers'',
       js ''X-Total-Count, X-Success-Count, X-Skipped-Count, Content-Disposition''),
      (js ''X-Total-Count'', js ''3''), (js ''X-Success-Count'', js ''2''),
      (js ''X-Skipped-Count'', js ''1'')]"
proof -
  let ?L = "sample_libs aba_rows (\<lambda>s. Some [1])"
  have c: "colIndex (body sample_request) = 0"
    by (simp add: sample_request_def default_config_def)
  have h1: "file_upload sample_request = Some (js ''uploads/1-data.xlsx'')"
    by (simp add: sample_request_def)
  have h2: "readSheet ?L (js ''uploads/1-data.xlsx'') fresh_disk = Some aba_rows"
    by (simp add: sample_libs_def readSheet_def fresh_disk_def)
  have l: "length aba_rows = 3" "length (validRecords (extractRecords 0 aba_rows)) = 2"
    "length (errors (extractRecords 0 aba_rows)) = 1"
    by (simp_all add: aba_extract) (simp add: aba_rows_def)
  have d: "digits 3 = js ''3''" "digits 2 = js ''2''" "digits 1 = js ''1''"
    by (simp_all add: digits.simps js_def)
  have ne: "validRecords (extractRecords 0 aba_rows) \<noteq> []"
    by (simp add: aba_extract)
  from counts_add_up_and_surface [OF h1 h2 refl]
  show ?thesis unfolding c l d using ne by simp
qed

text \<open>
  C10. Only the values \<open>undefined\<close>, \<open>null\<close> and the empty string in the selected column give
  an EmptyValue ledger entry for their row. The number 0 and the boolean false are accepted
  as the identifiers \<open>0\<close> and \<open>false\<close>. A non-empty cell of white space only passes the
  emptiness test, which runs before trimming: it gets no EmptyValue entry and the empty
  string enters the accepted list.
\<close>

theorem empty_value_only_for_undefined_null_or_empty_string:
  fixes rows :: "row list"
  assumes "j < length rows"
  shows "((\<exists>e \<in> set (errors (extractRecords k rows)). row_no e = j + 1 \<and> error e = EmptyValue) \<longleftrightarrow>
            cell_at (rows ! j) k = Undefined \<or> cell_at (rows ! j) k = Null \<or>
            cell_at (rows ! j) k = Str []) \<and>
         (cell_at (rows ! j) k = Num 0 \<longrightarrow> js ''0'' \<in> set (validRecords (extractRecords k rows))) \<and>
         (cell_at (rows ! j) k = Bool False \<longrightarrow>
            js ''false'' \<in> set (validRecords (extractRecords k rows))) \<and>
         (cell_at (rows ! j) k = Str s \<and> s \<noteq> [] \<and> list_all isWhiteSpace s \<longrightarrow>
            [] \<in> set (validRecords (extractRecords k rows)) \<and>
            \<not> (\<exists>e \<in> set (errors (extractRecords k rows)). row_no e = j + 1 \<and> error e = EmptyValue))"
proof -
  have e: "(\<exists>e \<in> set (errors (extractRecords k rows)). row_no e = j + 1 \<and> error e = EmptyValue) \<longleftrightarrow>
           isEmptyValue (cell_at (rows ! j) k)"
    using assms by (simp add: empty_ledger_rows)
  have v: "\<not> isEmptyValue (cell_at (rows ! j) k) \<Longrightarrow>
           trim (String (cell_at (rows ! j) k)) \<in> set (validRecords (extractRecords k rows))"
    using assms by (simp add: extractRecords_valid set_keep_first candidate_mem)
  have z: "trim (String (Num 0)) = js ''0''" "trim (String (Bool False)) = js ''false''"
    by (simp_all add: digits.simps trim_def isWhiteSpace_def js_def zero_safe_int.rep_eq)
  show ?thesis
    using e v z by (auto simp: isEmptyValue_def trim_all_whitespace)
qed

theorem empty_value_witness:
  "js ''0'' \<in> set (validRecords (extractRecords 0 falsy_rows)) \<and>
   js ''false'' \<in> set (validRecords (extractRecords 0 falsy_rows)) \<and>
   [] \<in> set (validRecords (extractRecords 0 falsy_rows)) \<and>
   (\<exists>e \<in> set (errors (extractRecords 0 falsy_rows)). row_no e = 4 \<and> error e = EmptyValue)"
proof -
  have c: "cell_at (falsy_rows ! 0) 0 = Num 0" "cell_at (falsy_rows ! 1) 0 = Bool False"
    "cell_at (falsy_rows ! 2) 0 = Str (js ''  '')" "cell_at (falsy_rows ! 3) 0 = Null"
    by (simp_all add: falsy_rows_def cell_at_def)
  have l: "0 < length falsy_rows" "1 < length falsy_rows" "2 < length falsy_rows"
    "3 < length falsy_rows"
    by (simp_all add: falsy_rows_def)
  have w: "js ''  '' \<noteq> []" "list_all isWhiteSpace (js ''  '')"
    by (simp_all add: js_def isWhiteSpace_def)
  have a0: "js ''0'' \<in> set (validRecords (extractRecords 0 falsy_rows))"
    using empty_value_only_for_undefined_null_or_empty_string [OF l(1), of 0 "[]"]
    unfolding c by simp
  have a1: "js ''false'' \<in> set (validRecords (extractRecords 0 falsy_rows))"
    using empty_value_only_for_undefined_null_or_empty_string [OF l(2), of 0 "[]"]
    unfolding c by simp
  have a2: "[] \<in> set (validRecords (extractRecords 0 falsy_rows))"
    using empty_value_only_for_undefined_null_or_empty_string [OF l(3), of 0 "js ''  ''"] w
    unfolding c by simp
  have a3: "\<exists>e \<in> set (errors (extractRecords 0 falsy_rows)). row_no e = 4 \<and> error e = EmptyValue"
    using empty_value_only_for_undefined_null_or_empty_string [OF l(4), of 0 "[]"]
    unfolding c by simp
  show ?thesis using a0 a1 a2 a3 by simp
qed

text \<open>
  C3. The accepted identifiers are trimmed, pairwise distinct and in first-seen order, and a
  value that comes again gets a DuplicateSerial entry (\<open>accepted_identifiers\<close>,
  \<open>reappearing_value_in_ledger\<close>). They are not all non-empty: a cell of three spaces
  is accepted as the empty identifier.
\<close>

theorem whitespace_only_cell_accepted_as_empty_identifier:
  "validRecords (extractRecords 0 [[Str (js ''   '')]]) = [[]] \<and>
   errors (extractRecords 0 [[Str (js ''   '')]]) = []"
  by (simp add: extractRecords_def startIndex_def cell_at_def isEmptyValue_def
      trim_def isWhiteSpace_def js_def Let_def)

text \<open>
  C7. When no identifier is accepted, both handlers answer with status 400 and the message
  "No valid records found in the selected column.", and nothing has been appended to an
  archive.
\<close>

theorem no_valid_records_rejected:
  assumes "file_upload req = Some fp" and "readSheet L fp d = Some rawData"
    and "validRecords (extractRecords (colIndex (body req)) rawData) = []"
  shows "reply (generate L req d) = BadRequest (js ''No valid records found in the selected column.'') \<and>
         archive (generate L req d) = [] \<and>
         reply (generate_seq L req d) = BadRequest (js ''No valid records found in the selected column.'') \<and>
         archive (generate_seq L req d) = []"
  using assms readSheet_on_disk [OF assms(2)]
  by (simp add: generate_def generate_seq_def Let_def unlinkSync_def no_records_message_def)

theorem no_valid_records_witness:
  "reply (generate (sample_libs blank_rows (\<lambda>s. Some [1])) sample_request fresh_disk) =
     BadRequest (js ''No valid records found in the selected column.'') \<and>
   archive (generate (sample_libs blank_rows (\<lambda>s. Some [1])) sample_request fresh_disk) = []"
proof -
  let ?L = "sample_libs blank_rows (\<lambda>s. Some [1])"
  have h1: "file_upload sample_request = Some (js ''uploads/1-data.xlsx'')"
    by (simp add: sample_request_def)
  have h2: "readSheet ?L (js ''uploads/1-data.xlsx'') fresh_disk = Some blank_rows"
    by (simp add: sample_libs_def readSheet_def fresh_disk_def)
  have h3: "validRecords (extractRecords (colIndex (body sample_request)) blank_rows) = []"
    by (simp add: sample_request_def default_config_def extractRecords_def startIndex_def
        blank_rows_def cell_at_def isEmptyValue_def Let_def)
  from no_valid_records_rejected [OF h1 h2 h3] show ?thesis by simp
qed

text \<open>
  C1. For a batch with a non-empty accepted list, index.js appends the report first, under
  the name report.txt, and then one image for each identifier that rendered, under the
  name made of the identifier, a dot and \<open>png\<close> when the format is png and \<open>jpg\<close> otherwise,
  in the order of the accepted list, whatever the chunking. Each member's name in the
  archive is what the archiver makes of the name it was appended under. The archive is
  finalized unless pre-processing an uploaded logo throws; then the batch ends as a server
  error with the report as the only member appended.
\<close>

theorem archive_report_first_then_images_in_order:
  assumes "file_upload req = Some fp" and "readSheet L fp d = Some rawData"
    and "ex = extractRecords (colIndex (body req)) rawData"
    and "validRecords ex \<noteq> []"
    and "ext = (if format (body req) = js ''png'' then js ''png'' else js ''jpg'')"
  shows "(case prepare_logo L (body req) (logo_upload req) of
            Some logo \<Rightarrow>
              reply (generate L req d) = ZipDownload \<and>
              archive (generate L req d) =
                (archiver_entry_name L (js ''report.txt''),
                 Text (reportContent (length rawData) ex)) #
                map (\<lambda>serial. (archiver_entry_name L (serial @ js ''.'' @ ext),
                                Image (the (processRecord L (body req) logo serial))))
                  (filter (\<lambda>serial. processRecord L (body req) logo serial \<noteq> None)
                     (validRecords ex))
          | None \<Rightarrow>
              reply (generate L req d) = ServerError \<and>
              archive (generate L req d) =
                [(archiver_entry_name L (js ''report.txt''),
                  Text (reportContent (length rawData) ex))])"
proof (cases "prepare_logo L (body req) (logo_upload req)")
  case None
  show ?thesis
    using generate_logo_failure [OF assms(1-4) None]
    by (simp add: None report_member_def startIndex_def)
next
  case (Some logo)
  show ?thesis
    using generate_run [OF assms(1-4) Some] assms(5)
    by (simp add: Some report_member_def image_members_def startIndex_def ext_of_def)
qed

theorem archive_order_witness:
  "reply (generate (sample_libs gap_rows rejects_empty) sample_request fresh_disk) = ZipDownload \<and>
   archive (generate (sample_libs gap_rows rejects_empty) sample_request fresh_disk) =
     [(js ''report.txt'', Text (reportContent 3 (extractRecords 0 gap_rows))),
      (js ''A.jpg'', Image [1]), (js ''C.jpg'', Image [1])] \<and>
   reply (generate (sample_libs gap_rows rejects_empty) logo_request logo_disk) = ServerError \<and>
   archive (generate (sample_libs gap_rows rejects_empty) logo_request logo_disk) =
     [(js ''report.txt'', Text (reportContent 3 (extractRecords 0 gap_rows)))]"
proof -
  let ?L = "sample_libs gap_rows rejects_empty"
  have h1: "file_upload logo_request = Some (js ''uploads/1-data.xlsx'')"
    by (simp add: logo_request_def sample_request_def)
  have h2: "readSheet ?L (js ''uploads/1-data.xlsx'') fresh_disk = Some gap_rows"
    by (rule sample_context)
  have h2': "readSheet ?L (js ''uploads/1-data.xlsx'') logo_disk = Some gap_rows"
    by (simp add: readSheet_def sample_libs_def logo_disk_def)
  have b: "body logo_request = default_config" "body sample_request = default_config"
    by (simp_all add: logo_request_def sample_request_def)
  have h4: "validRecords (extractRecords (colIndex (body sample_request)) gap_rows) \<noteq> []"
    "validRecords (extractRecords (colIndex (body logo_request)) gap_rows) \<noteq> []"
    by (simp_all add: b(1) sample_context gap_extract)
  have u: "logo_upload logo_request = Some (js ''uploads/2-logo.png'')"
    by (simp add: logo_request_def)
  have p: "prepare_logo ?L default_config None = Some None"
    by (simp add: prepare_logo_def)
  have p': "prepare_logo ?L default_config (Some (js ''uploads/2-logo.png'')) = None"
    by (simp add: prepare_logo_def sample_libs_def)
  have l: "length gap_rows = 3" by (simp add: gap_rows_def)
  have f: "format default_config \<noteq> js ''png''"
    by (simp add: default_config_def js_def)
  have v: "validRecords (extractRecords 0 gap_rows) = [js ''A'', [], js ''C'']"
    by (simp add: gap_extract)
  have r: "rejects_empty (js ''A'') = Some [1]" "rejects_empty [] = None"
    "rejects_empty (js ''C'') = Some [1]"
    by (simp_all add: rejects_empty_def js_def)
  have 1: "reply (generate ?L sample_request fresh_disk) = ZipDownload \<and>
           archive (generate ?L sample_request fresh_disk) =
             [(js ''report.txt'', Text (reportContent 3 (extractRecords 0 gap_rows))),
              (js ''A.jpg'', Image [1]), (js ''C.jpg'', Image [1])]"
    using archive_report_first_then_images_in_order [OF sample_context(1) h2 refl h4(1) refl]
    unfolding b sample_context(3-5) p sample_entry_name l v
    by (simp add: sample_processRecord f r sample_names)
  have 2: "reply (generate ?L logo_request logo_disk) = ServerError \<and>
           archive (generate ?L logo_request logo_disk) =
             [(js ''report.txt'', Text (reportContent 3 (extractRecords 0 gap_rows)))]"
    using archive_report_first_then_images_in_order [OF h1 h2' refl h4(2) refl]
    unfolding b u sample_context(4) p' sample_entry_name l
    by (simp add: sample_names)
  show ?thesis using 1 2 by simp
qed

theorem emitted_name_differs_from_identifier:
  "validRecords (extractRecords 0 dotdot_rows) = [js ''../x''] \<and>
   archive (generate (sample_libs dotdot_rows rejects_empty) sample_request fresh_disk) =
     [(js ''report.txt'', Text (reportContent 1 (extractRecords 0 dotdot_rows))),
      (js ''x.jpg'', Image [1])] \<and>
   js ''x.jpg'' \<noteq> js ''../x'' @ js ''.'' @ js ''jpg''"
proof -
  have v: "validRecords (extractRecords 0 dotdot_rows) = [js ''../x'']"
    by (simp add: dotdot_extract)
  then have ne: "validRecords (extractRecords 0 dotdot_rows) \<noteq> []" by simp
  have r: "rejects_empty (js ''../x'') = Some [1]"
    by (simp add: rejects_empty_def js_def)
  have l: "length dotdot_rows = 1" by (simp add: dotdot_rows_def)
  have n: "js ''x.jpg'' \<noteq> js ''../x'' @ js ''.'' @ js ''jpg''"
    by (simp add: js_def)
  show ?thesis
    using sample_generate_archive(2) [OF ne, of rejects_empty] n
    unfolding v l
    by (simp add: v image_members_def report_member_def r sample_names startIndex_def)
qed

text \<open>
  C2. A render failure of one identifier is caught, the record is dropped and the batch
  completes with the report and the other images. index.js does so
  (\<open>generate_isolates_one_failure\<close>). The sequential handler of part_000 does not: on the
  rows A, blank, C, where the encoder rejects the empty identifier, its loop is left at the
  throw, the answer is the server error and the archive, never finalized, holds the report
  and A.jpg only; index.js on the same input delivers the report, A.jpg and C.jpg.
\<close>

theorem sequential_handler_aborts_on_one_failure:
  "reply (generate_seq (sample_libs gap_rows rejects_empty) sample_request fresh_disk) = ServerError \<and>
   map fst (archive (generate_seq (sample_libs gap_rows rejects_empty) sample_request fresh_disk)) =
     [js ''report.txt'', js ''A.jpg''] \<and>
   reply (generate (sample_libs gap_rows rejects_empty) sample_request fresh_disk) = ZipDownload \<and>
   map fst (archive (generate (sample_libs gap_rows rejects_empty) sample_request fresh_disk)) =
     [js ''report.txt'', js ''A.jpg'', js ''C.jpg'']"
proof -
  let ?L = "sample_libs gap_rows rejects_empty"
  let ?ex = "extractRecords (colIndex (body sample_request)) gap_rows"
  have h2: "readSheet ?L (js ''uploads/1-data.xlsx'') fresh_disk = Some gap_rows"
    by (rule sample_context)
  have v: "validRecords ?ex = [js ''A'', [], js ''C'']"
    by (simp add: sample_context gap_extract)
  then have ne: "validRecords ?ex \<noteq> []" by simp
  have v0: "validRecords (extractRecords 0 gap_rows) = [js ''A'', [], js ''C'']"
    by (simp add: gap_extract)
  then have ne0: "validRecords (extractRecords 0 gap_rows) \<noteq> []" by simp
  have rs: "render_seq ?L (body sample_request) (logo_upload sample_request) = rejects_empty"
    by (simp add: sample_context sample_render_seq)
  have r: "rejects_empty (js ''A'') = Some [1]" "rejects_empty [] = None"
    "rejects_empty (js ''C'') = Some [1]"
    by (simp_all add: rejects_empty_def js_def)
  have s: "seq_loop (archiver_entry_name ?L)
             (render_seq ?L (body sample_request) (logo_upload sample_request))
             (ext_of (body sample_request)) (validRecords ?ex)
             [report_member (archiver_entry_name ?L) (length gap_rows) ?ex] =
           ([report_member (archiver_entry_name ?L) (length gap_rows) ?ex,
             (js ''A.jpg'', Image [1])], False)"
    unfolding rs sample_ext v sample_entry_name
    by (simp add: r archive_append_def sample_names)
  have i: "image_members drops_leading_dirs rejects_empty (js ''jpg'') [js ''A'', [], js ''C''] =
             [(js ''A.jpg'', Image [1]), (js ''C.jpg'', Image [1])]"
    by (simp add: image_members_def r sample_names)
  show ?thesis
    using generate_seq_run [OF sample_context(1) h2 refl ne s]
      sample_generate_archive [OF ne0, of rejects_empty]
    unfolding v0 i sample_entry_name by (simp add: report_member_def sample_names)
qed

text \<open>
  C5. The fast path is taken exactly when module and eye shape are square, no logo is
  supplied and no caption is requested; with a logo the styled path runs and composites
  the logo. index.js does so (\<open>processRecord_paths\<close>, \<open>logo_takes_styled_path\<close>). The
  renderer of part_000 tests the two shapes only: with the default square shapes and a logo
  uploaded it calls \<open>QRCode.toDataURL\<close> exactly as without the logo, and the logo is never
  read.
\<close>

theorem sequential_renderer_drops_logo_on_square_shapes:
  "render_seq L default_config (Some lp) s =
     QRCode_toDataURL L s (fast_opts default_config (Some (js ''image/jpeg'')) (Some (23 / 25))) \<and>
   render_seq L default_config (Some lp) s = render_seq L default_config None s \<and>
   processRecord L default_config (Some (logoBg, logoResized)) s =
     styled_render L default_config (Some (logoBg, logoResized)) s \<and>
   styled_ops default_config (Some (logoBg, logoResized)) s =
     [Composite [Overlay_buffer logoBg Center, Overlay_buffer logoResized Center],
      ToFormat (js ''jpeg'') 90]"
proof -
  have c: "moduleStyle default_config = js ''square''" "eyeStyle default_config = js ''square''"
    "format default_config \<noteq> js ''png''" "\<not> shouldShowText default_config"
    by (simp_all add: default_config_def shouldShowText_def js_def)
  show ?thesis
    by (simp add: render_seq_def processRecord_def styled_ops_def output_format_def c)
qed




text \<open>
  C9. With the caption enabled, the text node of the caption holds the identifier with
  exactly the five characters ampersand, less-than, greater-than, double quote and
  apostrophe replaced by their entities (the ampersand first, so that the result is the
  same as replacing every character once). The escaped text contains none of the four
  other markup characters, and decoding the entities gives the identifier back.
\<close>

theorem caption_text_is_xml_escaped:
  assumes "shouldShowText cfg"
  shows "Composite [Overlay_text (textSvg cfg serial) South] \<in> set (styled_ops cfg logo serial) \<and>
         t_content (textSvg cfg serial) = escapedSerial serial \<and>
         escapedSerial serial = concat (map xml_entity serial) \<and>
         set (escapedSerial serial) \<inter> {60, 62, 34, 39} = {} \<and>
         unescapeXml (escapedSerial serial) = serial"
proof -
  have "set (concat (map xml_entity serial)) \<inter> {60, 62, 34, 39} = {}"
    using entity_no_markup by (induction serial) auto
  then show ?thesis
    using assms
    by (simp add: escapedSerial_single_pass unescape_escaped textSvg_def styled_ops_def
        split: option.splits)
qed

theorem caption_escape_witness:
  "t_content (textSvg caption_config markup_serial) = js ''a&lt;b&gt;&amp;c&quot;&apos;'' \<and>
   unescapeXml (js ''a&lt;b&gt;&amp;c&quot;&apos;'') = markup_serial \<and>
   Composite [Overlay_text (textSvg caption_config markup_serial) South]
     \<in> set (styled_ops caption_config None markup_serial)"
proof -
  have h: "shouldShowText caption_config"
    by (simp add: caption_config_def default_config_def shouldShowText_def)
  have e: "concat (map xml_entity markup_serial) = js ''a&lt;b&gt;&amp;c&quot;&apos;''"
    by (simp add: markup_serial_def xml_entity_def js_def)
  from caption_text_is_xml_escaped [OF h, of markup_serial None]
  show ?thesis unfolding e by metis
qed

text \<open>
  C8. On every exit path both uploaded files are released, each at most once. The paths
  that end through the registered handlers do so (\<open>finalized_batch_releases_both_once\<close>).
  The rejection for lack of valid records does not: it unlinks the data file only and
  returns before the handlers are registered, so an uploaded logo stays on disk whatever
  event fires later.
\<close>

theorem rejection_leaves_logo_on_disk:
  "reply (generate (sample_libs blank_rows enc) logo_request logo_disk) =
     BadRequest (js ''No valid records found in the selected column.'') \<and>
   after_events logo_request (generate (sample_libs blank_rows enc) logo_request logo_disk) evs =
     \<lparr>existing = {js ''uploads/2-logo.png''}, unlink_calls = [js ''uploads/1-data.xlsx'']\<rparr>"
proof -
  have v: "validRecords (extractRecords 0 blank_rows) = []"
    by (simp add: extractRecords_def startIndex_def blank_rows_def cell_at_def isEmptyValue_def
        Let_def)
  have n: "js ''uploads/1-data.xlsx'' \<noteq> js ''uploads/2-logo.png''"
    by (simp add: js_def)
  have r: "readSheet (sample_libs blank_rows enc) (js ''uploads/1-data.xlsx'') logo_disk =
             Some blank_rows"
    by (simp add: readSheet_def sample_libs_def logo_disk_def)
  have u: "unlinkSync (js ''uploads/1-data.xlsx'') logo_disk =
             Some \<lparr>existing = {js ''uploads/2-logo.png''},
                   unlink_calls = [js ''uploads/1-data.xlsx'']\<rparr>"
    using n by (auto simp: unlinkSync_def logo_disk_def)
  have g: "generate (sample_libs blank_rows enc) logo_request logo_disk =
             \<lparr>reply = BadRequest no_records_message, headers = [], archive = [],
              disk = \<lparr>existing = {js ''uploads/2-logo.png''},
                      unlink_calls = [js ''uploads/1-data.xlsx'']\<rparr>,
              cleanup_registered = False\<rparr>"
    by (simp add: generate_def logo_request_def sample_request_def Let_def r v u
        default_config_def)
  show ?thesis
    by (simp add: g after_events_def no_records_message_def)
qed

end
